theory Spec2Isabelle
  imports Main "HOL-Library.Char_ord" "HOL-Library.List_Lexorder"
begin

section \<open>Strings of the C++ standard library\<close>

text \<open>
  A \<open>std::string\<close> is a \<open>string\<close> (a list of bytes). \<open>std::string::npos\<close> is
  \<open>None\<close>; a position that was found is \<open>Some i\<close>. Strings are ordered as
  \<open>std::string::operator<\<close> orders them: lexicographically, byte by byte.
\<close>

fun find_char :: "char \<Rightarrow> string \<Rightarrow> nat option" where
  "find_char c [] = None"
| "find_char c (x # xs) = (if x = c then Some 0 else map_option Suc (find_char c xs))"

definition rfind_char :: "char \<Rightarrow> string \<Rightarrow> nat option" where
  "rfind_char c s =
     (case find_char c (rev s) of None \<Rightarrow> None | Some i \<Rightarrow> Some (length s - 1 - i))"

fun find_str :: "string \<Rightarrow> string \<Rightarrow> nat option" where
  "find_str pat [] = (if pat = [] then Some 0 else None)"
| "find_str pat (x # xs) =
     (if take (length pat) (x # xs) = pat then Some 0 else map_option Suc (find_str pat xs))"

text \<open>
  \<open>s.substr(pos)\<close> and \<open>s.substr(pos, n)\<close>. The library throws when \<open>pos\<close> is beyond
  the end of \<open>s\<close>; every call below passes a position that \<open>find\<close> or \<open>rfind\<close>
  returned on the same string (or that position plus one), or zero, which is never beyond
  the end (lemmas \<open>find_char_less\<close> and \<open>rfind_char_less\<close>).
\<close>

definition substr :: "string \<Rightarrow> nat \<Rightarrow> string" where
  "substr s pos = drop pos s"

definition substr_n :: "string \<Rightarrow> nat \<Rightarrow> nat \<Rightarrow> string" where
  "substr_n s pos n = take n (drop pos s)"

abbreviation slash :: char where "slash \<equiv> CHR ''/''"
abbreviation backslash :: char where "backslash \<equiv> CHR 0x5C"
abbreviation dot :: char where "dot \<equiv> CHR ''.''"
abbreviation dquote :: char where "dquote \<equiv> CHR 0x22"

text \<open>\<open>std::to_string\<close> of a non-negative \<open>int\<close>.\<close>

definition digit_char :: "nat \<Rightarrow> char" where
  "digit_char n = ''0123456789'' ! n"

function to_string :: "nat \<Rightarrow> string" where
  "to_string n = (if n < 10 then [digit_char n] else to_string (n div 10) @ [digit_char (n mod 10)])"
  by pat_completeness auto
termination
  by (relation "measure id") auto

declare to_string.simps [simp del]

section \<open>\<open>std::map\<close> with \<open>std::string\<close> keys\<close>

text \<open>
  The map is the list of its pairs in key order, which is the order a range-\<open>for\<close>
  visits them in. \<open>map_of\<close> is \<open>find\<close>. \<open>insert\<close> keeps an existing pair.
  \<open>operator[]\<close> inserts a value-initialised element when the key is missing:
  \<open>map_index\<close> is the map after the access, \<open>map_ref\<close> the element referred to, and
  \<open>map_assign\<close> a write through that reference. The inserted element is the
  parameter \<open>dflt\<close>.
\<close>

type_synonym 'v strmap = "(string \<times> 'v) list"

fun map_insert :: "string \<Rightarrow> 'v \<Rightarrow> 'v strmap \<Rightarrow> 'v strmap" where
  "map_insert k v [] = [(k, v)]"
| "map_insert k v ((k', v') # m) =
     (if k < k' then (k, v) # (k', v') # m
      else if k = k' then (k', v') # m
      else (k', v') # map_insert k v m)"

definition map_index :: "'v \<Rightarrow> string \<Rightarrow> 'v strmap \<Rightarrow> 'v strmap" where
  "map_index dflt k m = (case map_of m k of None \<Rightarrow> map_insert k dflt m | Some v \<Rightarrow> m)"

definition map_ref :: "'v \<Rightarrow> string \<Rightarrow> 'v strmap \<Rightarrow> 'v" where
  "map_ref dflt k m = (case map_of m k of None \<Rightarrow> dflt | Some v \<Rightarrow> v)"

definition map_assign :: "'v \<Rightarrow> string \<Rightarrow> ('v \<Rightarrow> 'v) \<Rightarrow> 'v strmap \<Rightarrow> 'v strmap" where
  "map_assign dflt k f m =
     map (\<lambda>(k', v). if k' = k then (k', f v) else (k', v)) (map_index dflt k m)"


section \<open>Name/Path Normalizer (cmFastbuildNormalTargetGenerator)\<close>

text \<open>\<open>cmFastbuildNormalTargetGenerator::RemoveDuplicateName\<close>: the names go through a
  \<open>std::map\<close> and come back as its keys.\<close>

definition RemoveDuplicateName :: "string list \<Rightarrow> string list" where
  "RemoveDuplicateName listName =
     map fst (fold (\<lambda>name mapTemp. map_assign name name (\<lambda>v. name) mapTemp) listName [])"

text \<open>\<open>cmFastbuildNormalTargetGenerator::GetNameFile\<close>\<close>

definition GetNameFile :: "string \<Rightarrow> string" where
  "GetNameFile namePathFile =
     (let found1 = rfind_char slash namePathFile;
          found2 = rfind_char backslash namePathFile;
          found = (case (found1, found2) of
                     (Some f1, None) \<Rightarrow> f1 + 1
                   | (None, Some f2) \<Rightarrow> f2 + 1
                   | (Some f1, Some f2) \<Rightarrow> (if f1 < f2 then f2 else f1)
                   | (None, None) \<Rightarrow> 0);
          nameFile = substr namePathFile found
      in case find_char dot nameFile of
           None \<Rightarrow> nameFile
         | Some found_point \<Rightarrow> substr_n nameFile 0 found_point)"

text \<open>\<open>cmFastbuildNormalTargetGenerator::GetNameTargetLibrary\<close>\<close>

definition GetNameTargetLibrary :: "string \<Rightarrow> bool \<Rightarrow> string \<Rightarrow> string" where
  "GetNameTargetLibrary namePathFile isMultiConfig cfg =
     (let found1 = rfind_char slash namePathFile;
          found2 = rfind_char backslash namePathFile;
          found = (case (found1, found2) of
                     (Some f1, None) \<Rightarrow> f1 + 1
                   | (None, Some f2) \<Rightarrow> f2 + 1
                   | (Some f1, Some f2) \<Rightarrow> (if f1 < f2 then f2 else f1)
                   | (None, None) \<Rightarrow> 0);
          nameFile = substr namePathFile found;
          suffixed = (\<lambda>nameTarget. if isMultiConfig then nameTarget @ ''_'' @ cfg
                                   else nameTarget)
      in case rfind_char dot nameFile of
           None \<Rightarrow> suffixed ''''
         | Some found_point \<Rightarrow>
             (let nameTarget = substr_n nameFile 0 found_point
              in if substr_n nameFile found_point 4 = ''.lib''
                    \<or> substr_n nameFile found_point 2 = ''.a''
                 then suffixed (nameTarget @ ''_lib'')
                 else if find_str ''.so'' nameFile \<noteq> None
                 then suffixed (nameTarget @ ''_dll'')
                 else if substr_n nameFile found_point 9 = ''.manifest''
                 then ''''
                 else suffixed nameTarget))"

text \<open>\<open>cmFastbuildNormalTargetGenerator::GetFileDeps\<close>, on the paths that
  \<open>ComputeLinkDeps\<close> returned.\<close>

definition GetFileDeps :: "string list \<Rightarrow> string list" where
  "GetFileDeps implicitDeps =
     RemoveDuplicateName
       (filter (\<lambda>implicitDep.
                  \<not> (case rfind_char dot implicitDep of
                        None \<Rightarrow> False
                      | Some found_point \<Rightarrow> substr_n implicitDep found_point 9 = ''.manifest''))
          implicitDeps)"

text \<open>\<open>cmFastbuildNormalTargetGenerator::GetPath\<close>\<close>

definition GetPath :: "string \<Rightarrow> string" where
  "GetPath fullPath =
     (case rfind_char slash fullPath of
        None \<Rightarrow> ''''
      | Some found \<Rightarrow> substr_n fullPath 0 (found + 1))"

text \<open>\<open>cmGlobalFastbuildGenerator::Quote\<close>. The default of its second parameter is
  declared in a header that is not among the sources, so the quotation mark is always
  passed.\<close>

definition Quote :: "string \<Rightarrow> string \<Rightarrow> string" where
  "Quote quotation str = (if str = [] then '''' else quotation @ str @ quotation)"

text \<open>The base name as the specification words it: the last path component, either
  separator ending a directory, without its final extension.\<close>

definition last_component :: "string \<Rightarrow> string" where
  "last_component p = rev (takeWhile (\<lambda>c. c \<noteq> slash \<and> c \<noteq> backslash) (rev p))"

definition base_name_spec :: "string \<Rightarrow> string" where
  "base_name_spec p =
     (let comp = last_component p
      in case rfind_char dot comp of None \<Rightarrow> comp | Some i \<Rightarrow> take i comp)"

section \<open>Targets and the dependency ledger (cmGlobalFastbuildGenerator)\<close>

datatype TargetType =
    EXECUTABLE | STATIC_LIBRARY | SHARED_LIBRARY | MODULE_LIBRARY | OBJECT_LIBRARY
  | UTILITY | GLOBAL_TARGET | INTERFACE_LIBRARY | UNKNOWN_LIBRARY

text \<open>
  A \<open>cmGeneratorTarget\<close> belongs to the project model and is only read: its name, its
  type, its linker language for a configuration, and the paths that
  \<open>cmFastbuildTargetGenerator::ComputeLinkDeps\<close> returns for a configuration.
\<close>

record cmGeneratorTarget =
  GetName :: string
  GetType :: TargetType
  GetLinkerLanguage :: "string \<Rightarrow> string"
  ComputeLinkDeps :: "string \<Rightarrow> string list"

text \<open>
  \<open>cmFastbuildInfoTarget\<close>, the ledger entry. Its declaration is in a header that is not
  among the sources; these are the members the code reads and writes. \<open>gt\<close> is a
  pointer to the target, here the target itself, which nothing changes.
\<close>

record cmFastbuildInfoTarget =
  is_treated :: bool
  config :: string
  name_target_deps :: "string list"
  number_untrated_deps :: int
  gt :: cmGeneratorTarget

text \<open>What \<open>WriteTargetFB\<close> writes for a target, block by block.\<close>

datatype fb_block =
    CompileFB | SectionHeader string | ObjectListsFB bool | ExecutableFB | LibraryFB | DLLFB

text \<open>
  The part of the generator's state these operations touch: the ledger
  \<open>MapFastbuildInfoTargets\<close>, the messages given to \<open>cmSystemTools::Error\<close>, the
  (target, configuration) pairs whose inherited rule and build statements were written,
  the output of \<open>WriteTargetFB\<close>: target name, configuration and blocks of each call, in
  the order of the calls, and whether the output streams (the rules file, the files of
  every configuration and the common file) were put in the fail state.
\<close>

record generator_state =
  MapFastbuildInfoTargets :: "cmFastbuildInfoTarget strmap"
  Errors :: "string list"
  BuildStatements :: "(string \<times> string) list"
  WrittenTargets :: "(string \<times> string \<times> fb_block list) list"
  StreamsFailBit :: bool

definition initial_state :: generator_state where
  "initial_state =
     \<lparr>MapFastbuildInfoTargets = [], Errors = [], BuildStatements = [], WrittenTargets = [],
      StreamsFailBit = False\<rparr>"




text \<open>\<open>cmGlobalFastbuildGenerator::CanTreatTargetFB\<close>: the answer and the state after
  the call, since \<open>operator[]\<close> is not a pure read.\<close>

definition CanTreatTargetFB ::
  "cmFastbuildInfoTarget \<Rightarrow> cmGeneratorTarget \<Rightarrow> string \<Rightarrow> generator_state
     \<Rightarrow> bool \<times> generator_state" where
  "CanTreatTargetFB dflt tgt cfg s =
     (let target_name = GetName tgt @ cfg;
          m = map_index dflt target_name (MapFastbuildInfoTargets s);
          e = map_ref dflt target_name m
      in (\<not> (number_untrated_deps e > 0 \<or> is_treated e), s\<lparr>MapFastbuildInfoTargets := m\<rparr>))"













lemma map_of_eq_None_keys: "map_of m k = None \<longleftrightarrow> k \<notin> set (map fst m)"
  by (simp add: map_of_eq_None_iff)

lemma map_index_present: "map_of m k \<noteq> None \<Longrightarrow> map_index dflt k m = m"
  by (auto simp: map_index_def)




















section \<open>Libraries of a target, object lists and aliases (cmFastbuildNormalTargetGenerator)\<close>

definition is_gnu_or_clang :: "string \<Rightarrow> bool" where
  "is_gnu_or_clang compilerId \<longleftrightarrow> compilerId = ''GNU'' \<or> compilerId = ''Clang''"

text \<open>\<open>if (name.substr(0, 3) == "lib") name = name.substr(3);\<close>\<close>

definition strip_lib_prefix :: "string \<Rightarrow> string" where
  "strip_lib_prefix name = (if substr_n name 0 3 = ''lib'' then substr name 3 else name)"

text \<open>
  \<open>cmFastbuildNormalTargetGenerator::GetNameTargetLibraries\<close>. \<open>compilerId\<close> is
  \<open>GetCompilerId(config)\<close>, \<open>implicitDeps\<close> the paths that \<open>ComputeLinkDeps\<close>
  returned and \<open>m\<close> the ledger at the time of the call.
\<close>

definition GetNameTargetLibraries ::
  "string \<Rightarrow> bool \<Rightarrow> string \<Rightarrow> string list \<Rightarrow> cmFastbuildInfoTarget strmap \<Rightarrow> string list" where
  "GetNameTargetLibraries compilerId isMultiConfig cfg implicitDeps m =
     RemoveDuplicateName
       (concat (map (\<lambda>implicitDep.
          (let nameTarget0 = GetNameTargetLibrary implicitDep isMultiConfig cfg;
               nameInfoTargetGFB0 = GetNameFile implicitDep @ cfg;
               nameTarget = (if is_gnu_or_clang compilerId then strip_lib_prefix nameTarget0
                             else nameTarget0);
               nameInfoTargetGFB = (if is_gnu_or_clang compilerId
                                    then strip_lib_prefix nameInfoTargetGFB0
                                    else nameInfoTargetGFB0)
           in if nameTarget \<noteq> [] \<and> map_of m nameInfoTargetGFB \<noteq> None
              then [nameTarget] else []))
          implicitDeps))"

text \<open>
  A source file as the generator sees it: its path, its extension, and the flags, defines
  and includes that \<open>ComputeFlagsForObject\<close>, \<open>ComputeDefines\<close> and
  \<open>ComputeIncludes\<close> return for it with the language and configuration of the call.
\<close>

record cmSourceFile =
  GetFullPath :: string
  GetExtension :: string
  ComputeFlagsForObject :: string
  ComputeDefines :: string
  ComputeIncludes :: string

lemma find_str_less: "find_str pat s = Some i \<Longrightarrow> pat \<noteq> [] \<Longrightarrow> i < length s"
proof (induction s arbitrary: i)
  case Nil
  then show ?case by simp
next
  case (Cons x xs)
  show ?case
  proof (cases "take (length pat) (x # xs) = pat")
    case True
    with Cons.prems show ?thesis by simp
  next
    case False
    with Cons.prems obtain j where "find_str pat xs = Some j" and "i = Suc j"
      by auto
    with Cons.IH Cons.prems(2) show ?thesis by simp
  qed
qed

text \<open>\<open>cmFastbuildNormalTargetGenerator::RemoveBackslashBeforeDoubleRib\<close>: while the
  string holds a backslash before a double quote, the first such backslash is erased.\<close>

function RemoveBackslashBeforeDoubleRib :: "string \<Rightarrow> string" where
  "RemoveBackslashBeforeDoubleRib str =
     (case find_str [backslash, dquote] str of
        None \<Rightarrow> str
      | Some found \<Rightarrow> RemoveBackslashBeforeDoubleRib (take found str @ drop (Suc found) str))"
  by pat_completeness auto
termination
proof (relation "measure length")
  show "wf (measure (length :: string \<Rightarrow> nat))" by simp
next
  fix str :: string and found
  assume "find_str [backslash, dquote] str = Some found"
  then have "found < length str"
    by (rule find_str_less) simp
  then show "(take found str @ drop (Suc found) str, str) \<in> measure length"
    by simp
qed

declare RemoveBackslashBeforeDoubleRib.simps [simp del]

text \<open>The compile options of one source, as both places of \<open>WriteObjectListsFB\<close>
  compute them: flags, then the defines between two spaces, then the includes.\<close>

definition source_compilerOptions :: "string \<Rightarrow> cmSourceFile \<Rightarrow> string" where
  "source_compilerOptions compilerId sf =
     (let defines0 = '' '' @ ComputeDefines sf @ '' '';
          defines = (if is_gnu_or_clang compilerId then RemoveBackslashBeforeDoubleRib defines0
                     else defines0)
      in ComputeFlagsForObject sf @ defines @ ComputeIncludes sf)"

text \<open>One call of \<open>WriteObjectListFB\<close>: the name of the object list, its input files
  and the options, output path and source extension it is written with.\<close>

record object_list =
  ol_name :: string
  ol_files :: "string list"
  ol_compilerOptions :: string
  ol_output_path :: string
  ol_extension :: string

text \<open>
  The range-\<open>for\<close> of \<open>WriteObjectListsFB\<close> over the object sources. \<open>written\<close>
  collects the calls of \<open>WriteObjectListFB\<close>. \<open>output_objects[nbSourceFile]\<close> beyond
  the end of the vector has no defined result: \<open>None\<close>.
\<close>

fun WriteObjectListsFB_loop ::
  "string \<Rightarrow> string \<Rightarrow> string list \<Rightarrow> cmSourceFile list \<Rightarrow> nat \<Rightarrow> string \<Rightarrow> string \<Rightarrow> string
     \<Rightarrow> string list \<Rightarrow> nat \<Rightarrow> object_list list
     \<Rightarrow> (string \<times> string \<times> string \<times> string list \<times> nat \<times> object_list list) option" where
  "WriteObjectListsFB_loop compilerId objectList_name output_objects [] nbSourceFile
       compilerOptions output_object_path extension objectList nbObjectList written =
     Some (compilerOptions, output_object_path, extension, objectList, nbObjectList, written)"
| "WriteObjectListsFB_loop compilerId objectList_name output_objects (sf # rest) nbSourceFile
       compilerOptions output_object_path extension objectList nbObjectList written =
     (if nbSourceFile < length output_objects
      then
        (let output_object_path_temp = GetPath (output_objects ! nbSourceFile);
             extension_temp = GetExtension sf;
             compilerOptionsTemp = source_compilerOptions compilerId sf;
             differs = (compilerOptions \<noteq> compilerOptionsTemp
                        \<or> output_object_path \<noteq> output_object_path_temp
                        \<or> extension_temp \<noteq> extension);
             file = [dquote] @ GetFullPath sf @ [dquote]
         in WriteObjectListsFB_loop compilerId objectList_name output_objects rest
              (nbSourceFile + 1) compilerOptionsTemp output_object_path_temp extension_temp
              ((if differs then [] else objectList) @ [file])
              (if differs then nbObjectList + 1 else nbObjectList)
              (if differs
               then written @
                      [\<lparr>ol_name = objectList_name @ ''_'' @ to_string nbObjectList,
                        ol_files = objectList, ol_compilerOptions = compilerOptions,
                        ol_output_path = output_object_path, ol_extension = extension\<rparr>]
               else written))
      else None)"

text \<open>The name that \<open>WriteObjectListsFB\<close> gives the object lists of a target.\<close>

definition objectList_name_of :: "bool \<Rightarrow> string \<Rightarrow> string \<Rightarrow> string" where
  "objectList_name_of isMultiConfig short_name cfg =
     (if \<not> isMultiConfig then short_name @ ''_obj'' else short_name @ ''_obj_'' @ cfg)"

text \<open>
  \<open>cmFastbuildNormalTargetGenerator::WriteObjectListsFB\<close> up to its last call of
  \<open>WriteObjectListFB\<close>; the result is the list of those calls. \<open>short_name\<close> is
  \<open>GetShortOutputName(config)\<close>, \<open>objectSources\<close> and \<open>output_objects\<close> are what
  \<open>GetObjectSources\<close> and \<open>GetTargetObjectNames\<close> filled in.
\<close>

definition WriteObjectListsFB ::
  "string \<Rightarrow> bool \<Rightarrow> string \<Rightarrow> string \<Rightarrow> cmSourceFile list \<Rightarrow> string list
     \<Rightarrow> object_list list option" where
  "WriteObjectListsFB compilerId isMultiConfig short_name cfg objectSources output_objects =
     (let objectList_name = objectList_name_of isMultiConfig short_name cfg
      in if objectSources \<noteq> [] \<and> output_objects = [] then None
         else
           (let compilerOptions0 = (if objectSources \<noteq> []
                                    then source_compilerOptions compilerId (objectSources ! 0)
                                    else '''');
                output_object_path0 = (if objectSources \<noteq> []
                                       then GetPath (GetPath (output_objects ! 0)) else '''');
                extension0 = (if objectSources \<noteq> [] then GetExtension (objectSources ! 0)
                              else '''')
            in case WriteObjectListsFB_loop compilerId objectList_name output_objects
                      objectSources 0 compilerOptions0 output_object_path0 extension0 [] 1 [] of
                 None \<Rightarrow> None
               | Some (compilerOptions, output_object_path, extension, objectList,
                       nbObjectList, written) \<Rightarrow>
                   Some (written @
                      [\<lparr>ol_name = objectList_name @ ''_'' @ to_string nbObjectList,
                        ol_files = objectList, ol_compilerOptions = compilerOptions,
                        ol_output_path = output_object_path, ol_extension = extension\<rparr>])))"

text \<open>The settings that decide the object list of a source: its compile options, the
  directory of its object file and its extension.\<close>

definition group_key :: "string \<Rightarrow> cmSourceFile \<times> string \<Rightarrow> string \<times> string \<times> string" where
  "group_key compilerId x =
     (source_compilerOptions compilerId (fst x), GetPath (snd x), GetExtension (fst x))"

text \<open>The source and its object file, as a quoted input file of an object list.\<close>

definition quoted_path :: "cmSourceFile \<times> string \<Rightarrow> string" where
  "quoted_path x = [dquote] @ GetFullPath (fst x) @ [dquote]"

text \<open>The object list written for the part with number \<open>i\<close>, and the object lists of a
  list of parts, numbered from \<open>nb\<close>. A part is a key with the sources (each with its
  object file) of one object list.\<close>

definition object_list_of ::
  "string \<Rightarrow> nat \<Rightarrow> (string \<times> string \<times> string) \<times> (cmSourceFile \<times> string) list \<Rightarrow> object_list" where
  "object_list_of objectList_name i part =
     \<lparr>ol_name = objectList_name @ ''_'' @ to_string i,
      ol_files = map quoted_path (snd part),
      ol_compilerOptions = fst (fst part),
      ol_output_path = fst (snd (fst part)),
      ol_extension = snd (snd (fst part))\<rparr>"

fun object_lists_from ::
  "string \<Rightarrow> nat \<Rightarrow> ((string \<times> string \<times> string) \<times> (cmSourceFile \<times> string) list) list
     \<Rightarrow> object_list list" where
  "object_lists_from objectList_name nb [] = []"
| "object_lists_from objectList_name nb (part # parts) =
     object_list_of objectList_name nb part # object_lists_from objectList_name (Suc nb) parts"

fun split_runs ::
  "string \<Rightarrow> string \<times> string \<times> string \<Rightarrow> (cmSourceFile \<times> string) list
     \<Rightarrow> (cmSourceFile \<times> string) list
     \<Rightarrow> ((string \<times> string \<times> string) \<times> (cmSourceFile \<times> string) list) list" where
  "split_runs compilerId key cur [] = [(key, cur)]"
| "split_runs compilerId key cur (x # xs) =
     (if key \<noteq> group_key compilerId x
      then (key, cur) # split_runs compilerId (group_key compilerId x) [x] xs
      else split_runs compilerId key (cur @ [x]) xs)"

text \<open>The loop of \<open>WriteObjectListsFB\<close> followed by the last call of
  \<open>WriteObjectListFB\<close>.\<close>

definition finish_object_lists ::
  "string \<Rightarrow> (string \<times> string \<times> string \<times> string list \<times> nat \<times> object_list list) option
     \<Rightarrow> object_list list option" where
  "finish_object_lists objectList_name r =
     (case r of
        None \<Rightarrow> None
      | Some (compilerOptions, output_object_path, extension, objectList, nbObjectList, written) \<Rightarrow>
          Some (written @
                  [\<lparr>ol_name = objectList_name @ ''_'' @ to_string nbObjectList,
                    ol_files = objectList, ol_compilerOptions = compilerOptions,
                    ol_output_path = output_object_path, ol_extension = extension\<rparr>]))"

text \<open>A source with the given path and flags, in a directory of its own when asked.\<close>

definition example_source :: "string \<Rightarrow> string \<Rightarrow> cmSourceFile" where
  "example_source path flags =
     \<lparr>GetFullPath = path, GetExtension = ''cpp'', ComputeFlagsForObject = flags,
      ComputeDefines = ''-DNDEBUG'', ComputeIncludes = ''-Iinclude''\<rparr>"

text \<open>\<open>TargetAliasFB\<close> and the two alias tables of the global generator, and
  \<open>cmGlobalFastbuildGenerator::AddTargetAliasFB\<close>.\<close>

record TargetAliasFB =
  Config :: string
  ListDeps :: string
  ExcludeFromAll :: bool

record alias_tables =
  TargetAliasesFB :: "TargetAliasFB strmap"
  TargetAliasesOrderedFB :: "string list"

definition AddTargetAliasFB ::
  "string \<Rightarrow> string \<Rightarrow> string \<Rightarrow> bool \<Rightarrow> alias_tables \<Rightarrow> alias_tables" where
  "AddTargetAliasFB alias listDeps cfg excludeFromAll t =
     (if map_of (TargetAliasesFB t) alias = None
      then t\<lparr>TargetAliasesFB :=
               map_insert alias \<lparr>Config = cfg, ListDeps = listDeps,
                                 ExcludeFromAll = excludeFromAll\<rparr> (TargetAliasesFB t),
             TargetAliasesOrderedFB := TargetAliasesOrderedFB t @ [alias]\<rparr>
      else t)"

text \<open>
  The alias part of \<open>cmFastbuildNormalTargetGenerator::WriteExecutableFB\<close> (after the
  link block is written). \<open>quotation\<close> is the quotation mark of \<open>Quote\<close>,
  \<open>defaultFileConfig\<close> is \<open>GetDefaultFileConfig()\<close>, \<open>short_name\<close> is
  \<open>GetShortOutputName(config)\<close> and \<open>m\<close> the ledger.
\<close>

definition executable_name_of :: "bool \<Rightarrow> string \<Rightarrow> string \<Rightarrow> string" where
  "executable_name_of isMultiConfig short_name cfg =
     (if \<not> isMultiConfig then short_name @ ''_exe'' else short_name @ ''_exe_'' @ cfg)"

definition alias_name_of :: "bool \<Rightarrow> string \<Rightarrow> string \<Rightarrow> string" where
  "alias_name_of isMultiConfig short_name cfg =
     (if \<not> isMultiConfig then short_name @ ''_exe_deps''
      else short_name @ ''_exe_'' @ cfg @ ''_deps'')"

definition WriteExecutableFB_aliases ::
  "string \<Rightarrow> string \<Rightarrow> bool \<Rightarrow> string \<Rightarrow> string \<Rightarrow> string \<Rightarrow> cmGeneratorTarget
     \<Rightarrow> cmFastbuildInfoTarget strmap \<Rightarrow> alias_tables \<Rightarrow> alias_tables" where
  "WriteExecutableFB_aliases quotation compilerId isMultiConfig defaultFileConfig cfg short_name
       tgt m t =
     (let target_name = GetName tgt;
          executable_name = executable_name_of isMultiConfig short_name cfg;
          alias_name = alias_name_of isMultiConfig short_name cfg;
          implicitDeps = GetNameTargetLibraries compilerId isMultiConfig cfg
                           (ComputeLinkDeps tgt cfg) m;
          listImplicitDepsAlias =
            concat (map (\<lambda>implicitDep.
                           if implicitDep \<noteq> [] then Quote quotation (implicitDep @ ''_deps'')
                           else [])
                      implicitDeps);
          listDeps = listImplicitDepsAlias @ Quote quotation executable_name;
          t1 = AddTargetAliasFB (Quote quotation alias_name) listDeps cfg False t
      in if (compilerId = ''MSVC'' \<and> \<not> isMultiConfig)
            \<or> (isMultiConfig \<and> defaultFileConfig = cfg)
         then AddTargetAliasFB (Quote quotation target_name) (Quote quotation executable_name)
                cfg True t1
         else t1)"

text \<open>The name and the ledger key that \<open>GetNameTargetLibraries\<close> derives from the path
  of a dependency.\<close>

definition library_name_of :: "string \<Rightarrow> bool \<Rightarrow> string \<Rightarrow> string \<Rightarrow> string" where
  "library_name_of compilerId isMultiConfig cfg implicitDep =
     (if is_gnu_or_clang compilerId
      then strip_lib_prefix (GetNameTargetLibrary implicitDep isMultiConfig cfg)
      else GetNameTargetLibrary implicitDep isMultiConfig cfg)"

definition library_key_of :: "string \<Rightarrow> string \<Rightarrow> string \<Rightarrow> string" where
  "library_key_of compilerId cfg implicitDep =
     (if is_gnu_or_clang compilerId then strip_lib_prefix (GetNameFile implicitDep @ cfg)
      else GetNameFile implicitDep @ cfg)"

section \<open>Example inputs\<close>

text \<open>A target with a linker language and the given link dependencies, and the ledger
  entry that \<open>operator[]\<close> inserts when every member is value-initialised.\<close>

definition example_target :: "string \<Rightarrow> string list \<Rightarrow> cmGeneratorTarget" where
  "example_target name deps =
     \<lparr>GetName = name, GetType = EXECUTABLE, GetLinkerLanguage = (\<lambda>cfg. ''CXX''),
      ComputeLinkDeps = (\<lambda>cfg. deps)\<rparr>"

definition value_initialized :: cmFastbuildInfoTarget where
  "value_initialized =
     \<lparr>is_treated = False, config = [], name_target_deps = [], number_untrated_deps = 0,
      gt = example_target [] []\<rparr>"



section \<open>Facts about the string functions\<close>

lemma find_char_eq:
  "find_char c s = (if c \<in> set s then Some (length (takeWhile (\<lambda>x. x \<noteq> c) s)) else None)"
  by (induction s) auto

lemma length_takeWhile_mem_less:
  "c \<in> set s \<Longrightarrow> length (takeWhile (\<lambda>x. x \<noteq> c) s) < length s"
  by (induction s) auto

lemma find_char_less: "find_char c s = Some i \<Longrightarrow> i < length s"
  by (auto simp: find_char_eq length_takeWhile_mem_less split: if_splits)

lemma rfind_char_eq:
  "rfind_char c s =
     (if c \<in> set s then Some (length s - 1 - length (takeWhile (\<lambda>x. x \<noteq> c) (rev s)))
      else None)"
  by (simp add: rfind_char_def find_char_eq)

lemma rfind_char_less: "rfind_char c s = Some i \<Longrightarrow> i < length s"
  by (cases s) (auto simp: rfind_char_eq split: if_splits)

lemma drop_after_last:
  assumes "c \<in> set s"
  shows "drop (length s - 1 - length (takeWhile (\<lambda>x. x \<noteq> c) (rev s)) + 1) s
           = rev (takeWhile (\<lambda>x. x \<noteq> c) (rev s))"
proof -
  let ?t = "takeWhile (\<lambda>x. x \<noteq> c) (rev s)"
  have lt: "length ?t < length s"
    using assms length_takeWhile_mem_less [of c "rev s"] by simp
  then have "length s - 1 - length ?t + 1 = length s - length ?t" by simp
  moreover have "drop (length s - length ?t) s = rev (take (length ?t) (rev s))"
    by (simp add: rev_take)
  moreover have "take (length ?t) (rev s) = ?t"
    using takeWhile_eq_take [of "\<lambda>x. x \<noteq> c" "rev s"] by simp
  ultimately show ?thesis by simp
qed

lemma take_first_occurrence:
  "(case find_char c s of None \<Rightarrow> s | Some i \<Rightarrow> substr_n s 0 i) = takeWhile (\<lambda>x. x \<noteq> c) s"
proof (cases "c \<in> set s")
  case True
  then show ?thesis
    using takeWhile_eq_take [of "\<lambda>x. x \<noteq> c" s] by (simp add: find_char_eq substr_n_def)
next
  case False
  then have "takeWhile (\<lambda>x. x \<noteq> c) s = s" by (auto simp: takeWhile_eq_all_conv)
  with False show ?thesis by (simp add: find_char_eq del: takeWhile_eq_all_conv)
qed

text \<open>With separators of one kind only, \<open>GetNameFile\<close> starts the name after the last
  separator.\<close>

lemma name_start_one_separator_kind:
  assumes "\<not> (slash \<in> set p \<and> backslash \<in> set p)"
  shows "substr p (case (rfind_char slash p, rfind_char backslash p) of
                     (Some f1, None) \<Rightarrow> f1 + 1
                   | (None, Some f2) \<Rightarrow> f2 + 1
                   | (Some f1, Some f2) \<Rightarrow> (if f1 < f2 then f2 else f1)
                   | (None, None) \<Rightarrow> 0) = last_component p"
proof -
  consider (none) "slash \<notin> set p" "backslash \<notin> set p"
    | (fwd) "slash \<in> set p" "backslash \<notin> set p"
    | (bwd) "slash \<notin> set p" "backslash \<in> set p"
    using assms by blast
  then show ?thesis
  proof cases
    case none
    then have "takeWhile (\<lambda>c. c \<noteq> slash \<and> c \<noteq> backslash) (rev p) = rev p"
      by (auto simp: takeWhile_eq_all_conv)
    with none show ?thesis
      by (simp add: rfind_char_eq substr_def last_component_def del: takeWhile_eq_all_conv)
  next
    case fwd
    then have "takeWhile (\<lambda>c. c \<noteq> slash \<and> c \<noteq> backslash) (rev p)
                 = takeWhile (\<lambda>c. c \<noteq> slash) (rev p)"
      by (intro takeWhile_cong) auto
    with fwd show ?thesis
      using drop_after_last [of slash p]
      by (simp add: rfind_char_eq substr_def last_component_def)
  next
    case bwd
    then have "takeWhile (\<lambda>c. c \<noteq> slash \<and> c \<noteq> backslash) (rev p)
                 = takeWhile (\<lambda>c. c \<noteq> backslash) (rev p)"
      by (intro takeWhile_cong) auto
    with bwd show ?thesis
      using drop_after_last [of backslash p]
      by (simp add: rfind_char_eq substr_def last_component_def)
  qed
qed

section \<open>Facts about the map operations\<close>

lemma map_ref_present: "map_of m k = Some v \<Longrightarrow> map_ref dflt k m = v"
  by (simp add: map_ref_def)

lemma map_of_map_insert:
  "map_of m k = None \<Longrightarrow> map_of (map_insert k v m) = (map_of m)(k \<mapsto> v)"
  by (induction m) (auto split: if_splits)


lemma keys_map_insert: "fst ` set (map_insert k v m) = insert k (fst ` set m)"
proof (induction m)
  case Nil
  show ?case by simp
next
  case (Cons a m)
  obtain k' v' where a: "a = (k', v')" by (cases a)
  show ?case
    using Cons.IH by (cases "k < k'"; cases "k = k'") (auto simp: a)
qed

lemma keys_map_index: "fst ` set (map_index dflt k m) = insert k (fst ` set m)"
proof (cases "map_of m k")
  case None
  then show ?thesis by (simp add: map_index_def keys_map_insert)
next
  case (Some v)
  then have "k \<in> fst ` set m" using map_of_SomeD [OF Some] by force
  with Some show ?thesis by (auto simp: map_index_def)
qed

lemma keys_map_assign: "fst ` set (map_assign dflt k f m) = insert k (fst ` set m)"
proof -
  have "map fst (map_assign dflt k f m) = map fst (map_index dflt k m)"
    by (simp add: map_assign_def case_prod_beta)
  then have "set (map fst (map_assign dflt k f m)) = set (map fst (map_index dflt k m))"
    by simp
  then show ?thesis by (simp add: keys_map_index)
qed

lemma set_RemoveDuplicateName: "set (RemoveDuplicateName xs) = set xs"
proof -
  have "fst ` set (fold (\<lambda>name mapTemp. map_assign name name (\<lambda>v. name) mapTemp) xs m)
          = set xs \<union> fst ` set m" for m :: "string strmap"
  proof (induction xs arbitrary: m)
    case Nil
    then show ?case by simp
  next
    case (Cons x xs)
    show ?case
      unfolding fold_simps Cons.IH keys_map_assign by auto
  qed
  from this [of "[]"] show ?thesis by (simp add: RemoveDuplicateName_def)
qed

section \<open>Facts about the object lists\<close>

lemma GetPath_eq: "GetPath p = rev (dropWhile (\<lambda>c. c \<noteq> slash) (rev p))"
proof (cases "slash \<in> set p")
  case False
  then have "dropWhile (\<lambda>c. c \<noteq> slash) (rev p) = []" by auto
  with False show ?thesis by (simp add: GetPath_def rfind_char_eq)
next
  case True
  let ?t = "length (takeWhile (\<lambda>c. c \<noteq> slash) (rev p))"
  have lt: "?t < length p"
    using True length_takeWhile_mem_less [of slash "rev p"] by simp
  then have "length p - 1 - ?t + 1 = length p - ?t" by simp
  moreover have "take (length p - ?t) p = rev (drop ?t (rev p))"
    by (simp add: rev_drop)
  moreover have "drop ?t (rev p) = dropWhile (\<lambda>c. c \<noteq> slash) (rev p)"
    by (simp add: dropWhile_eq_drop)
  ultimately show ?thesis
    using True by (simp add: GetPath_def rfind_char_eq substr_n_def)
qed

lemma GetPath_idem: "GetPath (GetPath p) = GetPath p"
  by (simp add: GetPath_eq)

lemma object_lists_loop:
  "length output_objects = n + length rest \<Longrightarrow>
   finish_object_lists name
     (WriteObjectListsFB_loop compilerId name output_objects rest n co path ext
        (map quoted_path cur) nb written)
   = Some (written @ object_lists_from name nb
             (split_runs compilerId (co, path, ext) cur (zip rest (drop n output_objects))))"
proof (induction rest arbitrary: n co path ext cur nb written)
  case Nil
  then show ?case
    by (simp add: finish_object_lists_def object_list_of_def)
next
  case (Cons sf rest)
  from Cons.prems have n: "n < length output_objects" by simp
  then have dr: "drop n output_objects = output_objects ! n # drop (Suc n) output_objects"
    by (simp add: Cons_nth_drop_Suc)
  let ?x = "(sf, output_objects ! n)"
  have len: "length output_objects = Suc n + length rest"
    using Cons.prems by simp
  show ?case
  proof (cases "(co, path, ext) \<noteq> group_key compilerId ?x")
    case True
    have "finish_object_lists name
            (WriteObjectListsFB_loop compilerId name output_objects (sf # rest) n co path ext
               (map quoted_path cur) nb written)
          = finish_object_lists name
              (WriteObjectListsFB_loop compilerId name output_objects rest (Suc n)
                 (source_compilerOptions compilerId sf) (GetPath (output_objects ! n))
                 (GetExtension sf) (map quoted_path [?x]) (Suc nb)
                 (written @ [object_list_of name nb ((co, path, ext), cur)]))"
      using True n
      by (auto simp: Let_def group_key_def quoted_path_def object_list_of_def)
    also have "\<dots> = Some ((written @ [object_list_of name nb ((co, path, ext), cur)])
                 @ object_lists_from name (Suc nb)
                     (split_runs compilerId (group_key compilerId ?x) [?x]
                        (zip rest (drop (Suc n) output_objects))))"
      using Cons.IH [OF len, of "source_compilerOptions compilerId sf"
          "GetPath (output_objects ! n)" "GetExtension sf" "[?x]" "Suc nb"
          "written @ [object_list_of name nb ((co, path, ext), cur)]"]
      by (simp add: group_key_def)
    finally show ?thesis
      using True by (simp add: dr)
  next
    case False
    then have key: "co = source_compilerOptions compilerId sf"
        "path = GetPath (output_objects ! n)" "ext = GetExtension sf"
      by (simp_all add: group_key_def)
    have "finish_object_lists name
            (WriteObjectListsFB_loop compilerId name output_objects (sf # rest) n co path ext
               (map quoted_path cur) nb written)
          = finish_object_lists name
              (WriteObjectListsFB_loop compilerId name output_objects rest (Suc n)
                 co path ext (map quoted_path (cur @ [?x])) nb written)"
      using n key by (simp add: Let_def quoted_path_def)
    also have "\<dots> = Some (written @ object_lists_from name nb
                     (split_runs compilerId (co, path, ext) (cur @ [?x])
                        (zip rest (drop (Suc n) output_objects))))"
      by (rule Cons.IH [OF len])
    finally show ?thesis
      using False by (simp add: dr)
  qed
qed


lemma split_runs_concat: "concat (map snd (split_runs compilerId key cur xs)) = cur @ xs"
  by (induction xs arbitrary: key cur) auto

lemma split_runs_nonempty:
  "cur \<noteq> [] \<or> (xs \<noteq> [] \<and> key = group_key compilerId (hd xs)) \<Longrightarrow>
   part \<in> set (split_runs compilerId key cur xs) \<Longrightarrow> snd part \<noteq> []"
proof (induction xs arbitrary: key cur)
  case Nil
  then show ?case by auto
next
  case (Cons x xs)
  show ?case
  proof (cases "key \<noteq> group_key compilerId x")
    case True
    with Cons.prems have "cur \<noteq> []" by auto
    with Cons.prems True Cons.IH [of "[x]" "group_key compilerId x"] show ?thesis by auto
  next
    case False
    with Cons.prems Cons.IH [of "cur @ [x]" key] show ?thesis by auto
  qed
qed

lemma split_runs_same_key:
  "\<forall>x \<in> set cur. group_key compilerId x = key \<Longrightarrow>
   part \<in> set (split_runs compilerId key cur xs) \<Longrightarrow> x \<in> set (snd part) \<Longrightarrow>
   group_key compilerId x = fst part"
proof (induction xs arbitrary: key cur)
  case Nil
  then show ?case by auto
next
  case (Cons y xs)
  show ?case
  proof (cases "key \<noteq> group_key compilerId y")
    case True
    with Cons.prems Cons.IH [of "[y]" "group_key compilerId y"] show ?thesis by auto
  next
    case False
    with Cons.prems Cons.IH [of "cur @ [y]" key] show ?thesis by auto
  qed
qed

lemma split_runs_hd: "fst (hd (split_runs compilerId key cur xs)) = key"
  by (induction xs arbitrary: cur) auto

lemma split_runs_not_Nil: "split_runs compilerId key cur xs \<noteq> []"
  by (induction xs arbitrary: key cur) auto

lemma split_runs_distinct_adj: "distinct_adj (map fst (split_runs compilerId key cur xs))"
proof (induction xs arbitrary: key cur)
  case Nil
  show ?case by simp
next
  case (Cons x xs)
  show ?case
  proof (cases "key \<noteq> group_key compilerId x")
    case True
    then show ?thesis
      using Cons.IH [of "group_key compilerId x" "[x]"]
        split_runs_hd [of compilerId "group_key compilerId x" "[x]" xs]
        split_runs_not_Nil [of compilerId "group_key compilerId x" "[x]" xs]
      by (simp add: distinct_adj_Cons hd_map)
  next
    case False
    then show ?thesis using Cons.IH [of key "cur @ [x]"] by simp
  qed
qed

section \<open>The base name of a path\<close>

text \<open>
  Claim C8, as the specification states it: \<open>base_name\<close> (\<open>GetNameFile\<close>) strips the
  directory components, with either separator, and the final extension, so that a
  component with several dots keeps everything before the last dot. The code cuts the
  component at its first dot instead: for \<open>lib.v2.a\<close> it returns \<open>lib\<close>, where the
  last component without its final extension is \<open>lib.v2\<close>.
\<close>

theorem GetNameFile_final_extension_counterexample:
  "GetNameFile ''lib.v2.a'' = ''lib'' \<and> base_name_spec ''lib.v2.a'' = ''lib.v2''
   \<and> GetNameFile ''lib.v2.a'' \<noteq> base_name_spec ''lib.v2.a''"
  by (simp add: GetNameFile_def base_name_spec_def last_component_def rfind_char_def
      substr_def substr_n_def)

text \<open>
  Claim C8, amended: for every path that does not hold both a slash and a backslash,
  \<open>GetNameFile\<close> returns the last path component cut at its first dot (the whole
  component when it has no dot).
\<close>

theorem GetNameFile_one_separator_kind:
  assumes "\<not> (slash \<in> set p \<and> backslash \<in> set p)"
  shows "GetNameFile p = takeWhile (\<lambda>c. c \<noteq> dot) (last_component p)"
  unfolding GetNameFile_def Let_def name_start_one_separator_kind [OF assms]
  by (rule take_first_occurrence)

theorem GetNameFile_one_separator_kind_witness:
  "\<not> (slash \<in> set ''src/lib.v2.a'' \<and> backslash \<in> set ''src/lib.v2.a'')
   \<and> GetNameFile ''src/lib.v2.a'' = ''lib''"
  using GetNameFile_one_separator_kind [of "''src/lib.v2.a''"]
  by (simp add: last_component_def)

text \<open>A path with both separators: the code keeps the separator that ends the
  directory part.\<close>

lemma GetNameFile_mixed_separators:
  "GetNameFile [CHR ''a'', backslash, CHR ''b'', slash, CHR ''c'', dot, CHR ''x'']
     = [slash, CHR ''c'']"
  by (simp add: GetNameFile_def rfind_char_def substr_def substr_n_def)

section \<open>The readiness query\<close>

text \<open>
  Claim C3, as the specification states it: \<open>can_generate\<close> (\<open>CanTreatTargetFB\<close>) is
  true iff the entry exists, its count is zero and it is not finished, and the query
  changes nothing, also for a key that was never registered. On the empty ledger the
  call inserts an entry for the key (and, the inserted entry being value-initialised,
  answers true although no entry existed); and for an unfinished entry whose count is
  \<open>-1\<close> the answer is true although the count is not zero.
\<close>

theorem CanTreatTargetFB_not_pure_counterexample:
  "MapFastbuildInfoTargets
     (snd (CanTreatTargetFB value_initialized (example_target ''app'' []) ''Debug'' initial_state))
     \<noteq> MapFastbuildInfoTargets initial_state
   \<and> fst (CanTreatTargetFB value_initialized (example_target ''app'' []) ''Debug'' initial_state)
   \<and> map_of (MapFastbuildInfoTargets initial_state) ''appDebug'' = None
   \<and> fst (CanTreatTargetFB value_initialized (example_target ''app'' []) ''Debug''
       (initial_state\<lparr>MapFastbuildInfoTargets :=
          [(''appDebug'', \<lparr>is_treated = False, config = ''Debug'', name_target_deps = [],
                          number_untrated_deps = - 1, gt = example_target ''app'' []\<rparr>)]\<rparr>))"
  by (simp add: CanTreatTargetFB_def Let_def map_index_def map_ref_def initial_state_def
      example_target_def value_initialized_def)

text \<open>
  Claim C3, amended: for a key that has a ledger entry, \<open>CanTreatTargetFB\<close> is true iff
  the count of the entry is at most zero and the entry is not finished, and the call
  leaves the state as it was.
\<close>

theorem CanTreatTargetFB_registered:
  assumes "map_of (MapFastbuildInfoTargets s) (GetName tgt @ cfg) = Some e"
  shows "CanTreatTargetFB dflt tgt cfg s = (number_untrated_deps e \<le> 0 \<and> \<not> is_treated e, s)"
  using assms
  by (auto simp: CanTreatTargetFB_def Let_def map_index_present map_ref_present)

theorem CanTreatTargetFB_registered_witness:
  "map_of (MapFastbuildInfoTargets
       (initial_state\<lparr>MapFastbuildInfoTargets :=
          [(''appDebug'', \<lparr>is_treated = False, config = ''Debug'', name_target_deps = [''libDebug''],
                          number_untrated_deps = 1, gt = example_target ''app'' [''lib.lib'']\<rparr>)]\<rparr>))
     (GetName (example_target ''app'' [''lib.lib'']) @ ''Debug'')
     = Some \<lparr>is_treated = False, config = ''Debug'', name_target_deps = [''libDebug''],
                          number_untrated_deps = 1, gt = example_target ''app'' [''lib.lib'']\<rparr>
   \<and> fst (CanTreatTargetFB value_initialized (example_target ''app'' [''lib.lib'']) ''Debug''
       (initial_state\<lparr>MapFastbuildInfoTargets :=
          [(''appDebug'', \<lparr>is_treated = False, config = ''Debug'', name_target_deps = [''libDebug''],
                          number_untrated_deps = 1, gt = example_target ''app'' [''lib.lib'']\<rparr>)]\<rparr>))
       = False"
proof -
  let ?e = "\<lparr>is_treated = False, config = ''Debug'', name_target_deps = [''libDebug''],
                          number_untrated_deps = 1, gt = example_target ''app'' [''lib.lib'']\<rparr>"
  let ?s = "initial_state\<lparr>MapFastbuildInfoTargets := [(''appDebug'', ?e)]\<rparr>"
  have h: "map_of (MapFastbuildInfoTargets ?s)
             (GetName (example_target ''app'' [''lib.lib'']) @ ''Debug'') = Some ?e"
    by (simp add: example_target_def)
  from CanTreatTargetFB_registered [OF h, of value_initialized] h
  show ?thesis by simp
qed

section \<open>A target without a linker language\<close>



























section \<open>The aliases of an executable\<close>

text \<open>
  Claim C9, as the specification states it: every generated executable gets one deps
  alias and, when the build is not multi-config (or is, for the default configuration),
  an alias named after the target. With the GNU compiler and a single configuration the
  code records the deps alias only; and of two executables with the same output name
  (\<open>first\<close> and \<open>second\<close>, both \<open>app\<close>) the second gets no deps alias of its
  own: the one of the first stays.
\<close>

theorem WriteExecutableFB_canonical_alias_counterexample:
  "TargetAliasesOrderedFB
     (WriteExecutableFB_aliases [CHR 0x27] ''GNU'' False ''Debug'' ''Debug'' ''app''
        (example_target ''app'' []) [] \<lparr>TargetAliasesFB = [], TargetAliasesOrderedFB = []\<rparr>)
     = [[CHR 0x27] @ ''app_exe_deps'' @ [CHR 0x27]]
   \<and> map_of (TargetAliasesFB
       (WriteExecutableFB_aliases [CHR 0x27] ''GNU'' False ''Debug'' ''Debug'' ''app''
          (example_target ''app'' []) [] \<lparr>TargetAliasesFB = [], TargetAliasesOrderedFB = []\<rparr>))
       ([CHR 0x27] @ ''app'' @ [CHR 0x27]) = None
   \<and> TargetAliasesOrderedFB
       (WriteExecutableFB_aliases [CHR 0x27] ''MSVC'' False ''Debug'' ''Debug'' ''app''
          (example_target ''second'' []) []
          (WriteExecutableFB_aliases [CHR 0x27] ''MSVC'' False ''Debug'' ''Debug'' ''app''
             (example_target ''first'' []) []
             \<lparr>TargetAliasesFB = [], TargetAliasesOrderedFB = []\<rparr>))
     = [[CHR 0x27] @ ''app_exe_deps'' @ [CHR 0x27], [CHR 0x27] @ ''first'' @ [CHR 0x27],
        [CHR 0x27] @ ''second'' @ [CHR 0x27]]"
  by (simp add: WriteExecutableFB_aliases_def Let_def AddTargetAliasFB_def Quote_def
      executable_name_of_def alias_name_of_def GetNameTargetLibraries_def
      RemoveDuplicateName_def example_target_def)

text \<open>
  Claim C9, amended: \<open>WriteExecutableFB\<close> requests the deps alias of the executable
  (the deps aliases of its listed libraries, then the executable name; not excluded from
  \<open>all\<close>), and after it the alias named after the target (the executable name alone;
  excluded from \<open>all\<close>) exactly when the compiler is MSVC and the build is not
  multi-config, or the build is multi-config and the configuration is the default one.
  A requested alias is recorded, at the end of the order of the aliases, when no alias of
  its name is recorded yet; otherwise the earlier alias stays as it is. The theorem gives
  the order of the aliases after the call and the alias recorded under every name \<open>k\<close>.
\<close>

theorem WriteExecutableFB_aliases_recorded:
  "(let deps_alias = Quote q (alias_name_of multi short_name cfg);
        canonical_alias = Quote q (GetName tgt);
        canonical = ((compilerId = ''MSVC'' \<and> \<not> multi) \<or> (multi \<and> defaultFileConfig = cfg));
        after = WriteExecutableFB_aliases q compilerId multi defaultFileConfig cfg short_name
                  tgt m t
    in TargetAliasesOrderedFB after =
         TargetAliasesOrderedFB t
         @ (if map_of (TargetAliasesFB t) deps_alias = None then [deps_alias] else [])
         @ (if canonical \<and> map_of (TargetAliasesFB t) canonical_alias = None
               \<and> canonical_alias \<noteq> deps_alias
            then [canonical_alias] else [])
       \<and> map_of (TargetAliasesFB after) k =
           (if map_of (TargetAliasesFB t) k \<noteq> None then map_of (TargetAliasesFB t) k
            else if k = deps_alias
            then Some \<lparr>Config = cfg,
                       ListDeps =
                         concat (map (\<lambda>implicitDep.
                                        if implicitDep \<noteq> []
                                        then Quote q (implicitDep @ ''_deps'') else [])
                                   (GetNameTargetLibraries compilerId multi cfg
                                      (ComputeLinkDeps tgt cfg) m))
                         @ Quote q (executable_name_of multi short_name cfg),
                       ExcludeFromAll = False\<rparr>
            else if k = canonical_alias \<and> canonical
            then Some \<lparr>Config = cfg,
                       ListDeps = Quote q (executable_name_of multi short_name cfg),
                       ExcludeFromAll = True\<rparr>
            else None))"
proof -
  let ?a = "Quote q (alias_name_of multi short_name cfg)"
  let ?n = "Quote q (GetName tgt)"
  let ?deps = "concat (map (\<lambda>implicitDep.
                              if implicitDep \<noteq> []
                              then Quote q (implicitDep @ ''_deps'') else [])
                         (GetNameTargetLibraries compilerId multi cfg
                            (ComputeLinkDeps tgt cfg) m))
               @ Quote q (executable_name_of multi short_name cfg)"
  let ?t1 = "AddTargetAliasFB ?a ?deps cfg False t"
  have order1: "TargetAliasesOrderedFB ?t1 =
                  TargetAliasesOrderedFB t
                  @ (if map_of (TargetAliasesFB t) ?a = None then [?a] else [])"
    by (simp add: AddTargetAliasFB_def)
  have table1: "map_of (TargetAliasesFB ?t1) k' =
                  (if map_of (TargetAliasesFB t) k' \<noteq> None then map_of (TargetAliasesFB t) k'
                   else if k' = ?a
                   then Some \<lparr>Config = cfg, ListDeps = ?deps, ExcludeFromAll = False\<rparr>
                   else None)" for k'
    by (auto simp: AddTargetAliasFB_def map_of_map_insert)
  have free: "map_of (TargetAliasesFB ?t1) ?n = None
                \<longleftrightarrow> map_of (TargetAliasesFB t) ?n = None \<and> ?n \<noteq> ?a"
    unfolding table1 by auto
  let ?t2 = "AddTargetAliasFB ?n (Quote q (executable_name_of multi short_name cfg)) cfg True ?t1"
  have order2: "TargetAliasesOrderedFB ?t2 =
                  TargetAliasesOrderedFB ?t1
                  @ (if map_of (TargetAliasesFB t) ?n = None \<and> ?n \<noteq> ?a then [?n] else [])"
    using free by (simp add: AddTargetAliasFB_def)
  have table2: "map_of (TargetAliasesFB ?t2) k =
                  (if map_of (TargetAliasesFB ?t1) k \<noteq> None then map_of (TargetAliasesFB ?t1) k
                   else if k = ?n
                   then Some \<lparr>Config = cfg,
                              ListDeps = Quote q (executable_name_of multi short_name cfg),
                              ExcludeFromAll = True\<rparr>
                   else None)"
    by (auto simp: AddTargetAliasFB_def map_of_map_insert)
  have run: "WriteExecutableFB_aliases q compilerId multi defaultFileConfig cfg short_name tgt m t
               = (if (compilerId = ''MSVC'' \<and> \<not> multi) \<or> (multi \<and> defaultFileConfig = cfg)
                  then ?t2 else ?t1)"
    by (simp add: WriteExecutableFB_aliases_def Let_def)
  have both: "TargetAliasesOrderedFB (if c then ?t2 else ?t1) =
           TargetAliasesOrderedFB t
           @ (if map_of (TargetAliasesFB t) ?a = None then [?a] else [])
           @ (if c \<and> map_of (TargetAliasesFB t) ?n = None \<and> ?n \<noteq> ?a then [?n] else [])
         \<and> map_of (TargetAliasesFB (if c then ?t2 else ?t1)) k =
             (if map_of (TargetAliasesFB t) k \<noteq> None then map_of (TargetAliasesFB t) k
              else if k = ?a
              then Some \<lparr>Config = cfg, ListDeps = ?deps, ExcludeFromAll = False\<rparr>
              else if k = ?n \<and> c
              then Some \<lparr>Config = cfg,
                         ListDeps = Quote q (executable_name_of multi short_name cfg),
                         ExcludeFromAll = True\<rparr>
              else None)" for c
  proof (cases c)
    case True
    have "TargetAliasesOrderedFB ?t2 =
            TargetAliasesOrderedFB t
            @ (if map_of (TargetAliasesFB t) ?a = None then [?a] else [])
            @ (if map_of (TargetAliasesFB t) ?n = None \<and> ?n \<noteq> ?a then [?n] else [])"
      unfolding order2 order1 by simp
    moreover have "map_of (TargetAliasesFB ?t2) k =
            (if map_of (TargetAliasesFB t) k \<noteq> None then map_of (TargetAliasesFB t) k
             else if k = ?a
             then Some \<lparr>Config = cfg, ListDeps = ?deps, ExcludeFromAll = False\<rparr>
             else if k = ?n
             then Some \<lparr>Config = cfg,
                        ListDeps = Quote q (executable_name_of multi short_name cfg),
                        ExcludeFromAll = True\<rparr>
             else None)"
      unfolding table2 table1 by simp
    ultimately show ?thesis
      using True by simp
  next
    case False
    then show ?thesis
      using order1 table1 [of k] by simp
  qed
  show ?thesis
    unfolding Let_def run by (rule both)
qed

theorem WriteExecutableFB_aliases_recorded_witness:
  "TargetAliasesOrderedFB
     (WriteExecutableFB_aliases [CHR 0x27] ''MSVC'' False ''Debug'' ''Debug'' ''app''
        (example_target ''app'' []) [] \<lparr>TargetAliasesFB = [], TargetAliasesOrderedFB = []\<rparr>)
     = [[CHR 0x27] @ ''app_exe_deps'' @ [CHR 0x27], [CHR 0x27] @ ''app'' @ [CHR 0x27]]
   \<and> map_of (TargetAliasesFB
       (WriteExecutableFB_aliases [CHR 0x27] ''MSVC'' False ''Debug'' ''Debug'' ''app''
          (example_target ''app'' []) [] \<lparr>TargetAliasesFB = [], TargetAliasesOrderedFB = []\<rparr>))
       ([CHR 0x27] @ ''app'' @ [CHR 0x27])
     = Some \<lparr>Config = ''Debug'', ListDeps = [CHR 0x27] @ ''app_exe'' @ [CHR 0x27],
              ExcludeFromAll = True\<rparr>"
  using WriteExecutableFB_aliases_recorded [of "[CHR 0x27]" False "''app''" "''Debug''"
      "example_target ''app'' []" "''MSVC''" "''Debug''" "[]"
      "\<lparr>TargetAliasesFB = [], TargetAliasesOrderedFB = []\<rparr>" "[CHR 0x27] @ ''app'' @ [CHR 0x27]"]
  by (simp add: Let_def Quote_def alias_name_of_def executable_name_of_def example_target_def)

section \<open>Object lists are the maximal runs of sources with equal settings\<close>

text \<open>
  Claim C6: \<open>WriteObjectListsFB\<close> writes the sources of a target, in their order, as
  consecutive object lists; a new object list starts exactly where the compile options,
  the directory of the object file or the extension differ from those of the source
  before. Given one object name per source, the object lists are those of a list of
  parts such that: the parts, one after the other, are the sources in their order; no part
  is empty (unless there is no source at all, when one empty object list is written);
  within a part every source has the key of the part; and the keys of two neighbouring
  parts differ.
\<close>

theorem WriteObjectListsFB_maximal_runs:
  assumes "length output_objects = length objectSources"
  shows "\<exists>parts.
           WriteObjectListsFB compilerId isMultiConfig short_name cfg objectSources output_objects
             = Some (object_lists_from (objectList_name_of isMultiConfig short_name cfg) 1 parts)
           \<and> concat (map snd parts) = zip objectSources output_objects
           \<and> (objectSources \<noteq> [] \<longrightarrow> (\<forall>part \<in> set parts. snd part \<noteq> []))
           \<and> (\<forall>part \<in> set parts. \<forall>x \<in> set (snd part). group_key compilerId x = fst part)
           \<and> distinct_adj (map fst parts)"
proof -
  let ?name = "objectList_name_of isMultiConfig short_name cfg"
  let ?key0 = "(if objectSources \<noteq> []
                  then source_compilerOptions compilerId (objectSources ! 0) else [],
                if objectSources \<noteq> [] then GetPath (GetPath (output_objects ! 0)) else [],
                if objectSources \<noteq> [] then GetExtension (objectSources ! 0) else [])"
  let ?parts = "split_runs compilerId ?key0 [] (zip objectSources output_objects)"
  have loop: "finish_object_lists ?name
          (WriteObjectListsFB_loop compilerId ?name output_objects objectSources 0
             (fst ?key0) (fst (snd ?key0)) (snd (snd ?key0)) (map quoted_path []) 1 [])
        = Some ([] @ object_lists_from ?name 1
            (split_runs compilerId (fst ?key0, fst (snd ?key0), snd (snd ?key0)) []
               (zip objectSources (drop 0 output_objects))))"
    by (rule object_lists_loop) (simp add: assms)
  have not_none: "\<not> (objectSources \<noteq> [] \<and> output_objects = [])"
    using assms by auto
  have run: "WriteObjectListsFB compilerId isMultiConfig short_name cfg objectSources
               output_objects = Some (object_lists_from ?name 1 ?parts)"
    using loop not_none
    by (simp add: WriteObjectListsFB_def objectList_name_of_def finish_object_lists_def
        Let_def del: split_runs.simps split: option.splits)
  have key0: "objectSources \<noteq> [] \<Longrightarrow>
          ?key0 = group_key compilerId (hd (zip objectSources output_objects))"
    using assms
    by (cases objectSources; cases output_objects) (simp_all add: group_key_def GetPath_idem)
  have nonempty: "objectSources \<noteq> [] \<longrightarrow> (\<forall>part \<in> set ?parts. snd part \<noteq> [])"
  proof (intro impI ballI)
    fix part
    assume ne: "objectSources \<noteq> []" and part: "part \<in> set ?parts"
    have "zip objectSources output_objects \<noteq> []"
      using ne assms by (cases objectSources; cases output_objects) simp_all
    with key0 [OF ne] split_runs_nonempty [OF _ part] show "snd part \<noteq> []"
      by blast
  qed
  have same: "\<forall>part \<in> set ?parts. \<forall>x \<in> set (snd part). group_key compilerId x = fst part"
    using split_runs_same_key [of "[]" compilerId ?key0 _ "zip objectSources output_objects"]
    by simp
  show ?thesis
    using run split_runs_concat [of compilerId ?key0 "[]" "zip objectSources output_objects"]
      nonempty same
      split_runs_distinct_adj [of compilerId ?key0 "[]" "zip objectSources output_objects"]
    by (intro exI [of _ ?parts]) simp
qed

theorem WriteObjectListsFB_maximal_runs_witness:
  "length [''s1.obj'', ''s2.obj'', ''s3.obj'', ''s4.obj'']
     = length [example_source ''s1.cpp'' ''flagsA'', example_source ''s2.cpp'' ''flagsA'',
               example_source ''s3.cpp'' ''flagsB'', example_source ''s4.cpp'' ''flagsA'']
   \<and> map_option (map ol_files)
       (WriteObjectListsFB ''MSVC'' False ''app'' ''Debug''
          [example_source ''s1.cpp'' ''flagsA'', example_source ''s2.cpp'' ''flagsA'',
           example_source ''s3.cpp'' ''flagsB'', example_source ''s4.cpp'' ''flagsA'']
          [''s1.obj'', ''s2.obj'', ''s3.obj'', ''s4.obj''])
     = Some [[[dquote] @ ''s1.cpp'' @ [dquote], [dquote] @ ''s2.cpp'' @ [dquote]],
             [[dquote] @ ''s3.cpp'' @ [dquote]],
             [[dquote] @ ''s4.cpp'' @ [dquote]]]"
proof -
  let ?srcs = "[example_source ''s1.cpp'' ''flagsA'', example_source ''s2.cpp'' ''flagsA'',
                example_source ''s3.cpp'' ''flagsB'', example_source ''s4.cpp'' ''flagsA'']"
  let ?objs = "[''s1.obj'', ''s2.obj'', ''s3.obj'', ''s4.obj'']"
  have len: "length ?objs = length ?srcs" by simp
  show ?thesis
    using WriteObjectListsFB_maximal_runs [OF len, of "''MSVC''" False "''app''" "''Debug''"]
    by (simp add: WriteObjectListsFB_def objectList_name_of_def source_compilerOptions_def
        is_gnu_or_clang_def example_source_def GetPath_def rfind_char_def Let_def)
qed

section \<open>The libraries named in the link and alias lists\<close>

text \<open>The names that \<open>GetNameTargetLibraries\<close> returns are those of the dependencies
  whose name is not empty and whose key has a ledger entry.\<close>

lemma GetNameTargetLibraries_set:
  "set (GetNameTargetLibraries compilerId isMultiConfig cfg implicitDeps m) =
     {library_name_of compilerId isMultiConfig cfg dep | dep.
        dep \<in> set implicitDeps
        \<and> library_name_of compilerId isMultiConfig cfg dep \<noteq> []
        \<and> map_of m (library_key_of compilerId cfg dep) \<noteq> None}"
  unfolding GetNameTargetLibraries_def set_RemoveDuplicateName
  by (auto simp: Let_def library_name_of_def library_key_of_def)

lemma GetNameTargetLibrary_manifest:
  "GetNameTargetLibrary ''res/app.manifest'' False ''Release'' = []"
  by (simp add: GetNameTargetLibrary_def rfind_char_def substr_def substr_n_def Let_def)

lemma GetFileDeps_manifest: "GetFileDeps [''res/app.source.manifest''] = []"
  by (simp add: GetFileDeps_def RemoveDuplicateName_def rfind_char_def substr_n_def)

text \<open>
  Claim C10 says that a dependency whose file name ends in \<open>.manifest\<close> has the empty
  name and is left out of the lists. \<open>GetNameTargetLibrary\<close> looks for \<open>.so\<close>
  anywhere in the file name before it looks at the \<open>.manifest\<close> extension: the manifest
  \<open>res/app.source.manifest\<close> of the target \<open>app\<close>, whose key is in the ledger, is
  named \<open>app.source_dll\<close> and listed as a library.
\<close>

theorem GetNameTargetLibraries_manifest_listed:
  "GetNameTargetLibraries ''MSVC'' False ''Release'' [''res/app.source.manifest'']
     [(''appRelease'', \<lparr>is_treated = False, config = ''Release'', name_target_deps = [],
                        number_untrated_deps = 0,
                        gt = example_target ''app'' [''res/app.source.manifest'']\<rparr>)]
   = [''app.source_dll'']"
  by (simp add: GetNameTargetLibraries_def GetNameTargetLibrary_def GetNameFile_def
      RemoveDuplicateName_def map_assign_def map_index_def is_gnu_or_clang_def
      rfind_char_def substr_def substr_n_def Let_def)


end
